theory Spec2Isabelle
  imports Main "HOL-Library.FSet"
begin

section \<open>Python values and list indexing\<close>

text \<open>
  The program is a Python script over a GUI toolkit. Python's exceptions are values of
  \<open>py_error\<close>; a function that can raise returns \<open>py_error + 'a\<close>. The values
  the table model's methods return are dynamically typed, hence \<open>pyval\<close>.
\<close>

datatype py_error = IndexError

datatype pyval = PyNone | PyBool bool | PyStr string

text \<open>
  \<open>xs[i]\<close> in Python: an index in \<open>[0, len)\<close> is used as it is, an index in
  \<open>[-len, 0)\<close> counts from the end, anything else raises \<open>IndexError\<close>.
\<close>

definition py_index :: "'a list \<Rightarrow> int \<Rightarrow> nat option" where
  "py_index xs i =
     (let n = int (length xs)
      in if 0 \<le> i \<and> i < n then Some (nat i)
         else if - n \<le> i \<and> i < 0 then Some (nat (n + i))
         else None)"

section \<open>The table model\<close>

text \<open>
  The item roles of the toolkit are an enumeration; the code compares a role with
  \<open>DisplayRole\<close> and \<open>EditRole\<close> only.
\<close>

datatype ItemDataRole =
  DisplayRole | DecorationRole | EditRole | ToolTipRole | StatusTipRole | WhatsThisRole
  | UserRole nat

text \<open>
  A model index carries a row and a column. The toolkit's default-constructed (invalid)
  index has row and column \<open>-1\<close>.
\<close>

datatype QModelIndex = QModelIndex (row: int) (column: int)

definition isValid :: "QModelIndex \<Rightarrow> bool" where
  "isValid index = (0 \<le> row index \<and> 0 \<le> column index)"

definition invalid_index :: QModelIndex where
  "invalid_index = QModelIndex (- 1) (- 1)"

text \<open>
  One emission of the \<open>dataChanged\<close> signal: its three arguments, and the cell array
  as an observer sees it at the moment of the emission (\<open>seen\<close>), which records when
  the emission happens relative to the writes.
\<close>

datatype notification =
  Notification (topLeft: QModelIndex) (bottomRight: QModelIndex)
    (roles: "ItemDataRole list") (seen: "string list list")

text \<open>
  \<open>MyTableModel\<close>: the cell array \<open>data_array\<close> (a list of rows, each a list of
  strings) and the emissions of its \<open>dataChanged\<close> signal so far, oldest first.
  The rows of the array are distinct list objects, so a write to one row changes no other
  row.
\<close>

record MyTableModel =
  data_array :: "string list list"
  dataChanged :: "notification list"

definition default_data :: "string list list" where
  "default_data = [[''Item 1'', ''Description 1''], [''Item 2'', ''Description 2'']]"

text \<open>
  \<open>__init__(self, data=None)\<close>: \<open>self.data_array = data or [[...], [...]]\<close>.
  \<open>None\<close> and the empty list are falsy, every non-empty list is truthy.
\<close>

definition MyTableModel_init :: "string list list option \<Rightarrow> MyTableModel" where
  "MyTableModel_init data =
     \<lparr>data_array = (case data of None \<Rightarrow> default_data
                      | Some d \<Rightarrow> if d = [] then default_data else d),
      dataChanged = []\<rparr>"

definition rowCount :: "MyTableModel \<Rightarrow> int" where
  "rowCount m = int (length (data_array m))"

definition columnCount :: "MyTableModel \<Rightarrow> int" where
  "columnCount m = (if data_array m \<noteq> [] then int (length (data_array m ! 0)) else 0)"

definition data :: "MyTableModel \<Rightarrow> QModelIndex \<Rightarrow> ItemDataRole \<Rightarrow> py_error + pyval" where
  "data m index role =
     (if role = DisplayRole then
        (case py_index (data_array m) (row index) of
           None \<Rightarrow> Inl IndexError
         | Some r \<Rightarrow>
             (case py_index (data_array m ! r) (column index) of
                None \<Rightarrow> Inl IndexError
              | Some c \<Rightarrow> Inr (PyStr (data_array m ! r ! c))))
      else Inr PyNone)"

text \<open>
  \<open>setData\<close>: with the edit role, write the cell, emit \<open>dataChanged(index, index,
  [role])\<close> and return \<open>True\<close>; with any other role return \<open>False\<close>. The two
  subscripts are Python's, so they raise \<open>IndexError\<close> out of range.
\<close>

definition setData ::
  "MyTableModel \<Rightarrow> QModelIndex \<Rightarrow> string \<Rightarrow> ItemDataRole \<Rightarrow> py_error + (pyval \<times> MyTableModel)" where
  "setData m index v role =
     (if role = EditRole then
        (case py_index (data_array m) (row index) of
           None \<Rightarrow> Inl IndexError
         | Some r \<Rightarrow>
             (case py_index (data_array m ! r) (column index) of
                None \<Rightarrow> Inl IndexError
              | Some c \<Rightarrow>
                  (let d = (data_array m)[r := (data_array m ! r)[c := v]]
                   in Inr (PyBool True,
                        m\<lparr>data_array := d,
                          dataChanged := dataChanged m @ [Notification index index [role] d]\<rparr>))))
      else Inr (PyBool False, m))"

text \<open>
  Modelled from the spec: \<open>QAbstractTableModel.index(row, column)\<close> is the toolkit's and not
  in the repository. Section 3 of the spec has indices "within current bounds"; the
  toolkit returns the index of an in-bounds cell and the invalid index otherwise.
\<close>

definition hasIndex :: "MyTableModel \<Rightarrow> int \<Rightarrow> int \<Rightarrow> bool" where
  "hasIndex m r c = (0 \<le> r \<and> 0 \<le> c \<and> r < rowCount m \<and> c < columnCount m)"

definition model_index :: "MyTableModel \<Rightarrow> int \<Rightarrow> int \<Rightarrow> QModelIndex" where
  "model_index m r c = (if hasIndex m r c then QModelIndex r c else invalid_index)"

section \<open>The edit command\<close>

text \<open>
  An \<open>EditRowCommand\<close> stores the two list objects its caller passes, uncopied
  (\<open>self.old_values = old_values\<close>, \<open>self.new_values = new_values\<close>). The only
  writes the program makes to a list are those of \<open>setData\<close>, in place, to the row
  objects of \<open>data_array\<close>. So a stored list object is either the table's own row object
  of some row (\<open>TableRow k\<close>: its contents are whatever that row holds now) or a list that
  is no row of the table (\<open>OwnList\<close>: its contents stay as they are). A row object is
  taken from a table that has that row, and the table never loses a row.
\<close>

datatype list_ref = OwnList "string list" | TableRow nat

definition list_of :: "MyTableModel \<Rightarrow> list_ref \<Rightarrow> string list" where
  "list_of m ref =
     (case ref of
        OwnList xs \<Rightarrow> xs
      | TableRow k \<Rightarrow> if k < length (data_array m) then data_array m ! k else [])"

text \<open>
  The loop shared by \<open>EditRowCommand.undo\<close> and \<open>EditRowCommand.redo\<close>:
  \<open>for col, value in enumerate(values): index = self.model.index(self.row, col);
  self.model.setData(index, value)\<close>. The iterator reads element \<open>col\<close> of the list
  object as it is at that step and stops when \<open>col\<close> reaches the length of the list. The
  value \<open>setData\<close> returns is dropped, an exception ends the loop.
\<close>

function enumerate_setData ::
  "MyTableModel \<Rightarrow> int \<Rightarrow> nat \<Rightarrow> list_ref \<Rightarrow> py_error + MyTableModel" where
  "enumerate_setData m r col ref =
     (if col < length (list_of m ref) then
        (case setData m (model_index m r (int col)) (list_of m ref ! col) EditRole of
           Inl e \<Rightarrow> Inl e
         | Inr (_, m') \<Rightarrow> enumerate_setData m' r (Suc col) ref)
      else Inr m)"
  by pat_completeness auto
termination
proof (relation "measure (\<lambda>(m, r, col, ref). length (list_of m ref) - col)")
  show "wf (measure (\<lambda>(m, r, col, ref). length (list_of m ref) - col))"
    by simp
next
  fix m :: MyTableModel and r :: int and col :: nat and ref :: list_ref
    and x :: "pyval \<times> MyTableModel" and b :: pyval and m' :: MyTableModel
  assume c: "col < length (list_of m ref)"
    and s: "setData m (model_index m r (int col)) (list_of m ref ! col) EditRole = Inr x"
    and x: "(b, m') = x"
  have upd: "length (xs[i := (xs ! i)[c := v]] ! j) = length (xs ! j)"
    if "j < length xs" for xs :: "string list list" and i j c v
    using that by (cases "i = j") simp_all
  from s x have "length (list_of m' ref) = length (list_of m ref)"
    by (cases ref)
       (auto simp: setData_def list_of_def Let_def upd split: option.splits if_splits)
  with c show "((m', r, Suc col, ref), (m, r, col, ref))
        \<in> measure (\<lambda>(m, r, col, ref). length (list_of m ref) - col)"
    by simp
qed

declare enumerate_setData.simps [simp del]

section \<open>Selection state\<close>

text \<open>
  Modelled from the spec: the toolkit's selection model (\<open>QItemSelectionModel\<close>) is not in
  the repository. Following sections 4.2 and 4.4 of the spec it is a set of selected
  cells; \<open>clearSelection\<close> empties it, and \<open>select\<close> with the flags
  \<open>Select | Rows\<close> adds every cell of the row of an index of the model and nothing for
  any other index. \<open>calls\<close> records the calls made on it, oldest first.
\<close>

datatype selection_call = ClearSelection | Select QModelIndex

record QItemSelectionModel =
  selectedIndexes :: "QModelIndex fset"
  calls :: "selection_call list"

definition clearSelection :: "QItemSelectionModel \<Rightarrow> QItemSelectionModel" where
  "clearSelection sm = sm\<lparr>selectedIndexes := {||}, calls := calls sm @ [ClearSelection]\<rparr>"

definition row_cells :: "MyTableModel \<Rightarrow> int \<Rightarrow> QModelIndex fset" where
  "row_cells m r = fset_of_list (map (\<lambda>c. QModelIndex r (int c)) [0..<nat (columnCount m)])"

definition select_rows ::
  "MyTableModel \<Rightarrow> QItemSelectionModel \<Rightarrow> QModelIndex \<Rightarrow> QItemSelectionModel" where
  "select_rows m sm index =
     sm\<lparr>selectedIndexes :=
          selectedIndexes sm |\<union>|
            (if hasIndex m (row index) (column index) then row_cells m (row index) else {||}),
        calls := calls sm @ [Select index]\<rparr>"

record SelectionState =
  selected_rows :: "int fset"
  selected_indexes :: "QModelIndex fset"

text \<open>
  \<open>capture_selection\<close>: clear \<open>selected_rows\<close>, then add the row of every valid
  selected index. The result does not depend on the order of the iteration.
\<close>

definition capture_selection :: "SelectionState \<Rightarrow> QItemSelectionModel \<Rightarrow> SelectionState" where
  "capture_selection st sm = st\<lparr>selected_rows := row |`| ffilter isValid (selectedIndexes sm)\<rparr>"

definition SelectionState_init :: "QItemSelectionModel option \<Rightarrow> SelectionState" where
  "SelectionState_init selection_model =
     (let st = \<lparr>selected_rows = {||}, selected_indexes = {||}\<rparr>
      in case selection_model of None \<Rightarrow> st | Some sm \<Rightarrow> capture_selection st sm)"

text \<open>
  \<open>apply_selection\<close>: \<open>clearSelection()\<close>, then for each row of
  \<open>sorted(self.selected_rows)\<close> select the index \<open>model().index(row, 0)\<close> with
  \<open>Select | Rows\<close>. The table model \<open>m\<close> is the selection model's \<open>model()\<close>.
\<close>

definition apply_selection ::
  "SelectionState \<Rightarrow> MyTableModel \<Rightarrow> QItemSelectionModel \<Rightarrow> QItemSelectionModel" where
  "apply_selection st m sm =
     foldl (\<lambda>s r. select_rows m s (model_index m r 0)) (clearSelection sm)
       (sorted_list_of_fset (selected_rows st))"

section \<open>Commands, the undo stack and the window\<close>

text \<open>
  A command holds references to the window's table model and selection model; here the
  window is passed to the command, which reads and writes those two fields.
\<close>

datatype command =
  SelectionUndoCommand (old_state: SelectionState) (new_state: SelectionState)
  | EditRowCommand (cmd_row: int) (old_values: list_ref) (new_values: list_ref)

text \<open>
  Modelled from the spec: the undo stack (\<open>QUndoStack\<close>) is the toolkit's and not in the
  repository. Section 4.5 of the spec gives it as a list of commands and a cursor.
\<close>

record QUndoStack =
  commands :: "command list"
  cursor :: nat

record MainWindow =
  undo_stack :: QUndoStack
  model :: MyTableModel
  selection_model :: QItemSelectionModel
  previous_selection :: SelectionState

definition SelectionUndoCommand_undo :: "SelectionState \<Rightarrow> SelectionState \<Rightarrow> MainWindow \<Rightarrow> MainWindow" where
  "SelectionUndoCommand_undo old new w =
     w\<lparr>selection_model := apply_selection old (model w) (selection_model w)\<rparr>"

definition SelectionUndoCommand_redo :: "SelectionState \<Rightarrow> SelectionState \<Rightarrow> MainWindow \<Rightarrow> MainWindow" where
  "SelectionUndoCommand_redo old new w =
     w\<lparr>selection_model := apply_selection new (model w) (selection_model w)\<rparr>"

definition EditRowCommand_undo ::
  "int \<Rightarrow> list_ref \<Rightarrow> list_ref \<Rightarrow> MainWindow \<Rightarrow> py_error + MainWindow" where
  "EditRowCommand_undo r old new w =
     (case enumerate_setData (model w) r 0 old of
        Inl e \<Rightarrow> Inl e
      | Inr m' \<Rightarrow> Inr (w\<lparr>model := m'\<rparr>))"

definition EditRowCommand_redo ::
  "int \<Rightarrow> list_ref \<Rightarrow> list_ref \<Rightarrow> MainWindow \<Rightarrow> py_error + MainWindow" where
  "EditRowCommand_redo r old new w =
     (case enumerate_setData (model w) r 0 new of
        Inl e \<Rightarrow> Inl e
      | Inr m' \<Rightarrow> Inr (w\<lparr>model := m'\<rparr>))"

fun command_undo :: "command \<Rightarrow> MainWindow \<Rightarrow> py_error + MainWindow" where
  "command_undo (SelectionUndoCommand old new) w = Inr (SelectionUndoCommand_undo old new w)"
| "command_undo (EditRowCommand r old new) w = EditRowCommand_undo r old new w"

fun command_redo :: "command \<Rightarrow> MainWindow \<Rightarrow> py_error + MainWindow" where
  "command_redo (SelectionUndoCommand old new) w = Inr (SelectionUndoCommand_redo old new w)"
| "command_redo (EditRowCommand r old new) w = EditRowCommand_redo r old new w"

datatype report = Done | NothingToUndo | NothingToRedo

text \<open>
  Modelled from the spec: \<open>QUndoStack.push\<close>, absent from the repository. "truncate
  commands to commands[0:cursor], append cmd, invoke cmd.apply(...), set cursor =
  len(commands)". An exception of the command leaves the call.
\<close>

definition push :: "command \<Rightarrow> MainWindow \<Rightarrow> py_error + MainWindow" where
  "push cmd w =
     (let cs = take (cursor (undo_stack w)) (commands (undo_stack w)) @ [cmd]
      in case command_redo cmd w of
           Inl e \<Rightarrow> Inl e
         | Inr w' \<Rightarrow> Inr (w'\<lparr>undo_stack := \<lparr>commands = cs, cursor = length cs\<rparr>\<rparr>))"

text \<open>
  Modelled from the spec: \<open>QUndoStack.undo\<close>, absent from the repository. "no-op (reports
  NothingToUndo) if cursor == 0; else decrement cursor, invoke
  commands[cursor].reverse(...)". The subscript is Python's.
\<close>

definition undo :: "MainWindow \<Rightarrow> py_error + (report \<times> MainWindow)" where
  "undo w =
     (let h = undo_stack w
      in if cursor h = 0 then Inr (NothingToUndo, w)
         else if cursor h - 1 < length (commands h) then
           (case command_undo (commands h ! (cursor h - 1)) w of
              Inl e \<Rightarrow> Inl e
            | Inr w' \<Rightarrow> Inr (Done, w'\<lparr>undo_stack := h\<lparr>cursor := cursor h - 1\<rparr>\<rparr>))
         else Inl IndexError)"

text \<open>
  Modelled from the spec: \<open>QUndoStack.redo\<close>, absent from the repository. "no-op (reports
  NothingToRedo) if cursor == len(commands); else invoke commands[cursor].apply(...),
  increment cursor".
\<close>

definition redo :: "MainWindow \<Rightarrow> py_error + (report \<times> MainWindow)" where
  "redo w =
     (let h = undo_stack w
      in if cursor h = length (commands h) then Inr (NothingToRedo, w)
         else if cursor h < length (commands h) then
           (case command_redo (commands h ! cursor h) w of
              Inl e \<Rightarrow> Inl e
            | Inr w' \<Rightarrow> Inr (Done, w'\<lparr>undo_stack := h\<lparr>cursor := cursor h + 1\<rparr>\<rparr>))
         else Inl IndexError)"

text \<open>
  \<open>MainWindow.__init__\<close>, as far as the state goes: an empty undo stack, the default
  table, an empty selection, and \<open>previous_selection\<close> captured from it.
\<close>

definition MainWindow_init :: MainWindow where
  "MainWindow_init =
     (let sm = \<lparr>selectedIndexes = {||}, calls = []\<rparr>
      in \<lparr>undo_stack = \<lparr>commands = [], cursor = 0\<rparr>,
          model = MyTableModel_init None,
          selection_model = sm,
          previous_selection = SelectionState_init (Some sm)\<rparr>)"

text \<open>
  \<open>handle_selection_change\<close>, the slot of the selection model's \<open>selectionChanged\<close>
  signal. One call of the slot is modelled; the delivery of signals is the toolkit's.
\<close>

definition handle_selection_change :: "MainWindow \<Rightarrow> py_error + MainWindow" where
  "handle_selection_change w =
     (let current_selection = SelectionState_init (Some (selection_model w))
      in if selected_rows current_selection \<noteq> selected_rows (previous_selection w) then
           (case push (SelectionUndoCommand (previous_selection w) current_selection) w of
              Inl e \<Rightarrow> Inl e
            | Inr w' \<Rightarrow> Inr (w'\<lparr>previous_selection := current_selection\<rparr>))
         else Inr (w\<lparr>previous_selection := current_selection\<rparr>))"

section \<open>Sequences of calls and what is observed of the window\<close>

text \<open>
  \<open>pushes\<close> pushes the commands of a list one after the other, \<open>undos n\<close> calls
  \<open>undo()\<close> \<open>n\<close> times; an exception ends either.
\<close>

fun pushes :: "command list \<Rightarrow> MainWindow \<Rightarrow> py_error + MainWindow" where
  "pushes [] w = Inr w"
| "pushes (c # cs) w = (case push c w of Inl e \<Rightarrow> Inl e | Inr w' \<Rightarrow> pushes cs w')"


text \<open>
  The selection state of the window is the \<open>SelectionState\<close> captured from its selection
  model: the set of rows that hold a selected cell.
\<close>

definition live_rows :: "MainWindow \<Rightarrow> int fset" where
  "live_rows w = selected_rows (SelectionState_init (Some (selection_model w)))"





section \<open>The table model: construction, roles and bounds\<close>

lemma py_index_in_range:
  "0 \<le> i \<Longrightarrow> i < int (length xs) \<Longrightarrow> py_index xs i = Some (nat i)"
  by (simp add: py_index_def)

lemma py_index_too_large:
  "int (length xs) \<le> i \<Longrightarrow> py_index xs i = None"
  by (simp add: py_index_def Let_def)

text \<open>
  Claim C10, as amended. Constructing the model with \<open>None\<close> or with the empty list
  gives the default table of two rows and two columns, so no argument gives an empty
  cell array; and \<open>columnCount\<close> is 0 exactly when the stored array is empty or its
  first row is empty.
\<close>

theorem C10_falsy_data_gives_default:
  "MyTableModel_init None = \<lparr>data_array = default_data, dataChanged = []\<rparr>
   \<and> MyTableModel_init (Some []) = \<lparr>data_array = default_data, dataChanged = []\<rparr>
   \<and> default_data = [[''Item 1'', ''Description 1''], [''Item 2'', ''Description 2'']]
   \<and> rowCount (MyTableModel_init (Some [])) = 2
   \<and> columnCount (MyTableModel_init (Some [])) = 2
   \<and> data_array (MyTableModel_init arg) \<noteq> []
   \<and> (columnCount m = 0 \<longleftrightarrow> data_array m = [] \<or> hd (data_array m) = [])"
  by (cases "data_array m")
     (simp_all add: MyTableModel_init_def default_data_def rowCount_def columnCount_def
        split: option.split)

text \<open>
  Claim C10 as stated has \<open>columnCount\<close> return 0 only when the stored array is empty.
  The model built from the one-row table \<open>[[]]\<close> stores a non-empty array and has
  column count 0.
\<close>

theorem C10_columnCount_zero_counterexample:
  "\<not> (columnCount (MyTableModel_init (Some [[]])) = 0
        \<longrightarrow> data_array (MyTableModel_init (Some [[]])) = [])"
  by (simp add: columnCount_def MyTableModel_init_def)

text \<open>
  Claim C9. \<open>setData\<close> with a role other than the edit role returns \<open>False\<close> and
  returns the model as it was: the cell array is unchanged and no \<open>dataChanged\<close> is
  emitted.
\<close>

theorem C9_setData_other_role:
  "role \<noteq> EditRole \<Longrightarrow> setData m index v role = Inr (PyBool False, m)"
  by (simp add: setData_def)

theorem C9_setData_other_role_witness:
  "DisplayRole \<noteq> EditRole
   \<and> setData (MyTableModel_init None) (QModelIndex 0 1) ''Updated'' DisplayRole
       = Inr (PyBool False, MyTableModel_init None)"
  using C9_setData_other_role [of DisplayRole "MyTableModel_init None" "QModelIndex 0 1" "''Updated''"]
  by simp

text \<open>
  Claim C4, as amended. With the edit role, \<open>setData\<close> raises \<open>IndexError\<close> when the
  row of the index is at or beyond the row count, or when the row is in range and the
  column is at or beyond the length of that row; for an index in range it stores the value
  in that cell and returns \<open>True\<close>.
\<close>

theorem C4_setData_bounds:
  "(rowCount m \<le> row index \<longrightarrow> setData m index v EditRole = Inl IndexError)
   \<and> (0 \<le> row index \<and> row index < rowCount m
        \<and> int (length (data_array m ! nat (row index))) \<le> column index
        \<longrightarrow> setData m index v EditRole = Inl IndexError)
   \<and> (0 \<le> row index \<and> row index < rowCount m \<and> 0 \<le> column index
        \<and> column index < int (length (data_array m ! nat (row index)))
        \<longrightarrow> (\<exists>m'. setData m index v EditRole = Inr (PyBool True, m')
              \<and> data_array m' =
                  (data_array m)[nat (row index) :=
                     (data_array m ! nat (row index))[nat (column index) := v]]))"
  by (simp add: setData_def rowCount_def py_index_in_range py_index_too_large Let_def)

theorem C4_setData_bounds_witness:
  "setData (MyTableModel_init None) (QModelIndex 2 0) ''x'' EditRole = Inl IndexError
   \<and> setData (MyTableModel_init None) (QModelIndex 0 2) ''x'' EditRole = Inl IndexError
   \<and> (\<exists>m'. setData (MyTableModel_init None) (QModelIndex 0 1) ''Updated'' EditRole
              = Inr (PyBool True, m')
          \<and> data_array m' = [[''Item 1'', ''Updated''], [''Item 2'', ''Description 2'']])"
  using C4_setData_bounds [of "MyTableModel_init None" "QModelIndex 2 0" "''x''"]
        C4_setData_bounds [of "MyTableModel_init None" "QModelIndex 0 2" "''x''"]
        C4_setData_bounds [of "MyTableModel_init None" "QModelIndex 0 1" "''Updated''"]
  by (simp add: MyTableModel_init_def default_data_def rowCount_def)

text \<open>
  Claim C4 as stated has \<open>setData\<close> return the previous value of the cell. On the default
  table, writing \<open>Updated\<close> to row 0, column 1 returns \<open>True\<close>, while the cell held
  \<open>Description 1\<close>.
\<close>

theorem C4_setData_returns_previous_counterexample:
  "setData (MyTableModel_init None) (QModelIndex 0 1) ''Updated'' EditRole
     = Inr (PyBool True,
         \<lparr>data_array = [[''Item 1'', ''Updated''], [''Item 2'', ''Description 2'']],
          dataChanged =
            [Notification (QModelIndex 0 1) (QModelIndex 0 1) [EditRole]
               [[''Item 1'', ''Updated''], [''Item 2'', ''Description 2'']]]\<rparr>)
   \<and> data (MyTableModel_init None) (QModelIndex 0 1) DisplayRole
       = Inr (PyStr ''Description 1'')
   \<and> PyBool True \<noteq> PyStr ''Description 1''"
  by (simp add: setData_def data_def MyTableModel_init_def default_data_def py_index_def Let_def)

section \<open>The edit command: what one application writes and emits\<close>

text \<open>
  One \<open>setData\<close> through \<open>model.index(r, c)\<close> for a cell of the table: the index is
  valid, the cell is written, one notification for that cell is emitted.
\<close>

lemma setData_in_range:
  assumes "0 \<le> r" "nat r < length (data_array m)" "c < length (data_array m ! nat r)"
    "length (data_array m ! 0) = length (data_array m ! nat r)"
  shows "setData m (model_index m r (int c)) v EditRole =
           Inr (PyBool True,
             m\<lparr>data_array := (data_array m)[nat r := (data_array m ! nat r)[c := v]],
               dataChanged := dataChanged m @
                 [Notification (QModelIndex r (int c)) (QModelIndex r (int c)) [EditRole]
                    ((data_array m)[nat r := (data_array m ! nat r)[c := v]])]\<rparr>)"
proof -
  from assms have ne: "data_array m \<noteq> []" by auto
  from assms ne have "hasIndex m r (int c)"
    by (simp add: hasIndex_def rowCount_def columnCount_def)
  then have idx: "model_index m r (int c) = QModelIndex r (int c)"
    by (simp add: model_index_def)
  from assms have p1: "py_index (data_array m) r = Some (nat r)"
    by (simp add: py_index_in_range)
  from assms have p2: "py_index (data_array m ! nat r) (int c) = Some c"
    by (simp add: py_index_in_range)
  show ?thesis
    by (simp add: setData_def idx p1 p2 Let_def)
qed

text \<open>
  A write to a cell of row \<open>r\<close> with the value the iterated list holds at that column
  leaves the contents of the iterated list as they are: a list of its own and another row
  are not written, and the row \<open>r\<close> itself receives the value it holds.
\<close>

lemma list_of_after_write:
  assumes "nat r < length (data_array m)" "col < length (list_of m ref)"
    "data_array m' =
       (data_array m)[nat r := (data_array m ! nat r)[col := list_of m ref ! col]]"
  shows "list_of m' ref = list_of m ref"
proof (cases ref)
  case (OwnList xs)
  then show ?thesis by (simp add: list_of_def)
next
  case (TableRow k)
  show ?thesis
  proof (cases "k = nat r")
    case True
    with assms TableRow show ?thesis by (simp add: list_of_def)
  next
    case False
    with assms TableRow show ?thesis by (simp add: list_of_def)
  qed
qed

text \<open>
  The loop from column \<open>col\<close> on, when the iterated list has the length of the row: it
  writes the contents the list has at the start over the cells \<open>col, col + 1, ...\<close> of
  row \<open>r\<close> and emits one notification after each write.
\<close>

lemma enumerate_setData_in_range:
  assumes "0 \<le> r" "nat r < length (data_array m)"
    "length (data_array m ! 0) = length (data_array m ! nat r)"
    "length (list_of m ref) = length (data_array m ! nat r)"
    "col \<le> length (list_of m ref)"
  shows "\<exists>m'. enumerate_setData m r col ref = Inr m'
      \<and> data_array m' =
          (data_array m)[nat r := take col (data_array m ! nat r) @ drop col (list_of m ref)]
      \<and> dataChanged m' = dataChanged m @
          map (\<lambda>k. Notification (QModelIndex r (int (col + k))) (QModelIndex r (int (col + k)))
                     [EditRole]
                     ((data_array m)[nat r := take col (data_array m ! nat r)
                                  @ take (Suc k) (drop col (list_of m ref))
                                  @ drop (col + Suc k) (data_array m ! nat r)]))
            [0..<length (list_of m ref) - col]"
  using assms
proof (induction "length (list_of m ref) - col" arbitrary: m col)
  case 0
  then have c: "col = length (list_of m ref)" by simp
  have e: "enumerate_setData m r col ref = Inr m"
    by (subst enumerate_setData.simps) (simp add: c)
  have "take col (data_array m ! nat r) @ drop col (list_of m ref) = data_array m ! nat r"
    using "0.prems" c by simp
  then have d: "(data_array m)[nat r := take col (data_array m ! nat r) @ drop col (list_of m ref)]
      = data_array m"
    by (simp add: list_update_same_conv)
  show ?case
    using e d c by simp
next
  case (Suc n)
  let ?d = "data_array m"
  let ?row = "?d ! nat r"
  let ?vs = "list_of m ref"
  let ?v = "?vs ! col"
  let ?m1 = "m\<lparr>data_array := ?d[nat r := ?row[col := ?v]],
               dataChanged := dataChanged m @
                 [Notification (QModelIndex r (int col)) (QModelIndex r (int col)) [EditRole]
                    (?d[nat r := ?row[col := ?v]])]\<rparr>"
  from Suc.hyps(2) have cv: "col < length ?vs" by simp
  with Suc.prems have c: "col < length ?row" by simp
  have step: "setData m (model_index m r (int col)) ?v EditRole = Inr (PyBool True, ?m1)"
    using Suc.prems c by (intro setData_in_range) auto
  have vs1: "list_of ?m1 ref = ?vs"
    using Suc.prems(2) cv by (intro list_of_after_write) simp_all
  have row1: "?d[nat r := ?row[col := ?v]] ! nat r = ?row[col := ?v]"
    using Suc.prems by simp
  have r1: "nat r < length (data_array ?m1)" using Suc.prems by simp
  have len0: "length (data_array ?m1 ! 0) = length (data_array ?m1 ! nat r)"
    using Suc.prems by (cases "nat r = 0") (auto simp: nth_list_update)
  have lenv: "length (list_of ?m1 ref) = length (data_array ?m1 ! nat r)"
    using Suc.prems by (simp add: vs1)
  have pre: "Suc col \<le> length (list_of ?m1 ref)"
    using cv by (simp add: vs1)
  have n: "n = length (list_of ?m1 ref) - Suc col"
    using Suc.hyps(2) by (simp add: vs1)
  from Suc.hyps(1) [OF n Suc.prems(1) r1 len0 lenv pre]
  obtain m' where m': "enumerate_setData ?m1 r (Suc col) ref = Inr m'"
    and d': "data_array m' =
          (data_array ?m1)[nat r := take (Suc col) (data_array ?m1 ! nat r)
                                  @ drop (Suc col) (list_of ?m1 ref)]"
    and n': "dataChanged m' = dataChanged ?m1 @
          map (\<lambda>k. Notification (QModelIndex r (int (Suc col + k))) (QModelIndex r (int (Suc col + k)))
                     [EditRole]
                     ((data_array ?m1)[nat r := take (Suc col) (data_array ?m1 ! nat r)
                                  @ take (Suc k) (drop (Suc col) (list_of ?m1 ref))
                                  @ drop (Suc col + Suc k) (data_array ?m1 ! nat r)]))
            [0..<length (list_of ?m1 ref) - Suc col]"
    by blast
  have tk: "take (Suc col) (?row[col := ?v]) = take col ?row @ [?v]"
    using c by (simp add: take_Suc_conv_app_nth)
  have dr: "drop col ?vs = ?v # drop (Suc col) ?vs"
    using cv by (simp add: Cons_nth_drop_Suc)
  have e1: "enumerate_setData m r col ref = Inr m'"
    using step m' cv by (subst enumerate_setData.simps) simp
  have e2: "data_array m' = ?d[nat r := take col ?row @ drop col ?vs]"
    using d' by (simp add: row1 tk vs1 dr)
  have e3: "dataChanged m' = dataChanged m @
          map (\<lambda>k. Notification (QModelIndex r (int (col + k))) (QModelIndex r (int (col + k)))
                     [EditRole]
                     (?d[nat r := take col ?row @ take (Suc k) (drop col ?vs)
                                  @ drop (col + Suc k) ?row]))
            [0..<length ?vs - col]"
  proof -
    have len: "length ?vs - col = Suc (length ?vs - Suc col)"
      using cv by simp
    have upt: "[0..<Suc (length ?vs - Suc col)] = 0 # map Suc [0..<length ?vs - Suc col]"
      by (simp add: upt_conv_Cons map_Suc_upt del: upt_Suc)
    have upd: "?row[col := ?v] = take col ?row @ ?v # drop (Suc col) ?row"
      using c by (rule upd_conv_take_nth_drop)
    have n'': "dataChanged m' =
        (dataChanged m @
           [Notification (QModelIndex r (int col)) (QModelIndex r (int col)) [EditRole]
              (?d[nat r := ?row[col := ?v]])]) @
        map (\<lambda>k. Notification (QModelIndex r (int (Suc col + k))) (QModelIndex r (int (Suc col + k)))
                   [EditRole]
                   (?d[nat r := take col ?row @ ?v # take (Suc k) (drop (Suc col) ?vs)
                                @ drop (Suc col + Suc k) ?row]))
          [0..<length ?vs - Suc col]"
      using n' by (simp add: row1 tk vs1)
    show ?thesis
      unfolding len upt by (simp add: n'' upd dr o_def)
  qed
  from e1 e2 e3 show ?case by blast
qed

lemma enumerate_setData_row:
  assumes "0 \<le> r" "r < rowCount m" "int (length (list_of m ref)) = columnCount m"
    "length (data_array m ! nat r) = length (list_of m ref)"
  shows "\<exists>m'. enumerate_setData m r 0 ref = Inr m'
      \<and> data_array m' = (data_array m)[nat r := list_of m ref]
      \<and> dataChanged m' = dataChanged m @
          map (\<lambda>k. Notification (QModelIndex r (int k)) (QModelIndex r (int k)) [EditRole]
                     ((data_array m)[nat r := take (Suc k) (list_of m ref)
                                  @ drop (Suc k) (data_array m ! nat r)]))
            [0..<length (list_of m ref)]"
proof -
  from assms have r: "nat r < length (data_array m)"
    by (simp add: rowCount_def)
  then have ne: "data_array m \<noteq> []" by auto
  from assms ne have l0: "length (data_array m ! 0) = length (data_array m ! nat r)"
    by (simp add: columnCount_def)
  have lv: "length (list_of m ref) = length (data_array m ! nat r)"
    using assms by simp
  have le: "0 \<le> length (list_of m ref)" by simp
  from enumerate_setData_in_range [OF assms(1) r l0 lv le]
  show ?thesis by simp
qed

lemma model_MainWindow_init:
  "model MainWindow_init = \<lparr>data_array = default_data, dataChanged = []\<rparr>"
  by (simp add: MainWindow_init_def MyTableModel_init_def Let_def)

lemma rowCount_init: "rowCount (model MainWindow_init) = 2"
  by (simp add: model_MainWindow_init rowCount_def default_data_def)

lemma columnCount_init: "columnCount (model MainWindow_init) = 2"
  by (simp add: model_MainWindow_init columnCount_def default_data_def)

lemma data_array_init:
  "data_array (model MainWindow_init)
     = [[''Item 1'', ''Description 1''], [''Item 2'', ''Description 2'']]"
  by (simp add: model_MainWindow_init default_data_def)

lemma list_of_other_row:
  assumes "data_array m' = (data_array m)[nat r := vs]" "ref \<noteq> TableRow (nat r)"
  shows "list_of m' ref = list_of m ref"
  using assms by (cases ref) (simp_all add: list_of_def)

text \<open>
  Claim C1, as amended. For a table in any state and an \<open>EditRowCommand\<close> on a row
  \<open>r\<close> of the table whose \<open>old_values\<close> hold the current contents of that row without
  being the row's own list object, and whose value lists have the table's column count,
  \<open>redo()\<close> followed by \<open>undo()\<close> both return, \<open>redo()\<close> leaves the contents of
  \<open>new_values\<close> in the row, and after \<open>undo()\<close> the cell array is the one before
  \<open>redo()\<close>.
\<close>

theorem C1_redo_then_undo_restores:
  assumes "0 \<le> r" "r < rowCount (model w)"
    "list_of (model w) old = data_array (model w) ! nat r"
    "int (length (list_of (model w) old)) = columnCount (model w)"
    "int (length (list_of (model w) new)) = columnCount (model w)"
    "old \<noteq> TableRow (nat r)"
  shows "\<exists>w1 w2. EditRowCommand_redo r old new w = Inr w1
           \<and> EditRowCommand_undo r old new w1 = Inr w2
           \<and> data_array (model w1) = (data_array (model w))[nat r := list_of (model w) new]
           \<and> data_array (model w2) = data_array (model w)"
proof -
  let ?m = "model w"
  have len: "length (data_array ?m ! nat r) = length (list_of ?m new)"
    using assms by simp
  from enumerate_setData_row [OF assms(1,2,5) len]
  obtain m1 where m1: "enumerate_setData ?m r 0 new = Inr m1"
    and d1: "data_array m1 = (data_array ?m)[nat r := list_of ?m new]"
    by blast
  have r1: "r < rowCount m1" using assms d1 by (simp add: rowCount_def)
  have rn: "nat r < length (data_array ?m)" using assms by (simp add: rowCount_def)
  have c1: "columnCount m1 = columnCount ?m"
    using assms d1 rn by (cases "nat r = 0") (auto simp: columnCount_def)
  have old1: "list_of m1 old = list_of ?m old"
    using d1 assms(6) by (rule list_of_other_row)
  have len1: "length (data_array m1 ! nat r) = length (list_of m1 old)"
    using assms d1 rn by (simp add: old1)
  have o1: "int (length (list_of m1 old)) = columnCount m1"
    using assms c1 by (simp add: old1)
  from enumerate_setData_row [OF assms(1) r1 o1 len1]
  obtain m2 where m2: "enumerate_setData m1 r 0 old = Inr m2"
    and d2: "data_array m2 = (data_array m1)[nat r := list_of m1 old]"
    by blast
  have restored: "data_array m2 = data_array ?m"
    using d1 d2 assms(3) by (simp add: old1 list_update_same_conv)
  show ?thesis
    using m1 m2 d1 restored by (simp add: EditRowCommand_redo_def EditRowCommand_undo_def)
qed

theorem C1_redo_then_undo_restores_witness:
  "\<exists>w1 w2.
     EditRowCommand_redo 0 (OwnList [''Item 1'', ''Description 1''])
       (OwnList [''Item 1'', ''Updated'']) MainWindow_init = Inr w1
     \<and> EditRowCommand_undo 0 (OwnList [''Item 1'', ''Description 1''])
         (OwnList [''Item 1'', ''Updated'']) w1 = Inr w2
     \<and> data_array (model w1) = [[''Item 1'', ''Updated''], [''Item 2'', ''Description 2'']]
     \<and> data_array (model w2)
         = [[''Item 1'', ''Description 1''], [''Item 2'', ''Description 2'']]"
proof -
  have h1: "(0::int) \<le> 0" by simp
  have h2: "0 < rowCount (model MainWindow_init)" by (simp add: rowCount_init)
  have h3: "list_of (model MainWindow_init) (OwnList [''Item 1'', ''Description 1''])
      = data_array (model MainWindow_init) ! nat 0"
    by (simp add: data_array_init list_of_def)
  have h4: "int (length (list_of (model MainWindow_init)
                (OwnList [''Item 1'', ''Description 1''])))
      = columnCount (model MainWindow_init)"
    by (simp add: columnCount_init list_of_def)
  have h5: "int (length (list_of (model MainWindow_init) (OwnList [''Item 1'', ''Updated''])))
      = columnCount (model MainWindow_init)"
    by (simp add: columnCount_init list_of_def)
  have h6: "OwnList [''Item 1'', ''Description 1''] \<noteq> TableRow (nat 0)" by simp
  from C1_redo_then_undo_restores [OF h1 h2 h3 h4 h5 h6]
  show ?thesis by (simp add: data_array_init list_of_def)
qed

text \<open>
  Claim C1 as stated asks only that the stored \<open>old_values\<close> equal the contents of the
  row. On the default table, take the command on row 0 whose \<open>old_values\<close> are the
  list object of row 0 itself and whose \<open>new_values\<close> are \<open>Item 1, Updated\<close>: the
  contents match and the lengths are the column count, \<open>redo()\<close> writes the row and so
  also what \<open>old_values\<close> holds, \<open>undo()\<close> writes the new values back, and the cell
  \<open>Description 1\<close> is not restored.
\<close>

theorem C1_old_values_row_object_counterexample:
  "list_of (model MainWindow_init) (TableRow 0) = data_array (model MainWindow_init) ! nat 0
   \<and> int (length (list_of (model MainWindow_init) (TableRow 0)))
       = columnCount (model MainWindow_init)
   \<and> int (length (list_of (model MainWindow_init) (OwnList [''Item 1'', ''Updated''])))
       = columnCount (model MainWindow_init)
   \<and> (case EditRowCommand_redo 0 (TableRow 0) (OwnList [''Item 1'', ''Updated''])
              MainWindow_init of
         Inl e \<Rightarrow> None
       | Inr w1 \<Rightarrow>
           (case EditRowCommand_undo 0 (TableRow 0) (OwnList [''Item 1'', ''Updated'']) w1 of
              Inl e \<Rightarrow> None
            | Inr w2 \<Rightarrow> Some (data_array (model w2))))
       = Some [[''Item 1'', ''Updated''], [''Item 2'', ''Description 2'']]
   \<and> data_array (model MainWindow_init)
       = [[''Item 1'', ''Description 1''], [''Item 2'', ''Description 2'']]"
  by code_simp

text \<open>
  Claim C5, as amended. For an \<open>EditRowCommand\<close> on a row of the table whose value
  lists have the table's column count, \<open>redo()\<close> (and likewise \<open>undo()\<close>) emits one
  \<open>dataChanged\<close> notification per written cell: the notification number \<open>k\<close> covers
  the single cell \<open>(r, k)\<close>, carries the edit role, and is emitted when the columns
  \<open>0..k\<close> of the row have been written and the later ones still hold their previous
  values.
\<close>

theorem C5_one_notification_per_cell:
  assumes "0 \<le> r" "r < rowCount (model w)"
    "int (length (list_of (model w) old)) = columnCount (model w)"
    "int (length (list_of (model w) new)) = columnCount (model w)"
    "int (length (data_array (model w) ! nat r)) = columnCount (model w)"
  shows "(\<exists>w1. EditRowCommand_redo r old new w = Inr w1
            \<and> dataChanged (model w1) = dataChanged (model w) @
                map (\<lambda>k. Notification (QModelIndex r (int k)) (QModelIndex r (int k)) [EditRole]
                       ((data_array (model w))[nat r := take (Suc k) (list_of (model w) new)
                          @ drop (Suc k) (data_array (model w) ! nat r)]))
                  [0..<length (list_of (model w) new)])
       \<and> (\<exists>w1. EditRowCommand_undo r old new w = Inr w1
            \<and> dataChanged (model w1) = dataChanged (model w) @
                map (\<lambda>k. Notification (QModelIndex r (int k)) (QModelIndex r (int k)) [EditRole]
                       ((data_array (model w))[nat r := take (Suc k) (list_of (model w) old)
                          @ drop (Suc k) (data_array (model w) ! nat r)]))
                  [0..<length (list_of (model w) old)])"
proof -
  have ln: "length (data_array (model w) ! nat r) = length (list_of (model w) new)"
    and lo: "length (data_array (model w) ! nat r) = length (list_of (model w) old)"
    using assms by simp_all
  from enumerate_setData_row [OF assms(1,2,4) ln]
  have a: "\<exists>w1. EditRowCommand_redo r old new w = Inr w1
            \<and> dataChanged (model w1) = dataChanged (model w) @
                map (\<lambda>k. Notification (QModelIndex r (int k)) (QModelIndex r (int k)) [EditRole]
                       ((data_array (model w))[nat r := take (Suc k) (list_of (model w) new)
                          @ drop (Suc k) (data_array (model w) ! nat r)]))
                  [0..<length (list_of (model w) new)]"
    by (auto simp: EditRowCommand_redo_def)
  from enumerate_setData_row [OF assms(1,2,3) lo]
  have b: "\<exists>w1. EditRowCommand_undo r old new w = Inr w1
            \<and> dataChanged (model w1) = dataChanged (model w) @
                map (\<lambda>k. Notification (QModelIndex r (int k)) (QModelIndex r (int k)) [EditRole]
                       ((data_array (model w))[nat r := take (Suc k) (list_of (model w) old)
                          @ drop (Suc k) (data_array (model w) ! nat r)]))
                  [0..<length (list_of (model w) old)]"
    by (auto simp: EditRowCommand_undo_def)
  from a b show ?thesis by blast
qed

theorem C5_one_notification_per_cell_witness:
  "\<exists>w1. EditRowCommand_redo 0 (OwnList [''Item 1'', ''Description 1''])
               (OwnList [''A'', ''B'']) MainWindow_init = Inr w1
          \<and> dataChanged (model w1) =
              [Notification (QModelIndex 0 0) (QModelIndex 0 0) [EditRole]
                 [[''A'', ''Description 1''], [''Item 2'', ''Description 2'']],
               Notification (QModelIndex 0 1) (QModelIndex 0 1) [EditRole]
                 [[''A'', ''B''], [''Item 2'', ''Description 2'']]]"
proof -
  have h1: "(0::int) \<le> 0" by simp
  have h2: "0 < rowCount (model MainWindow_init)" by (simp add: rowCount_init)
  have h3: "int (length (list_of (model MainWindow_init)
                (OwnList [''Item 1'', ''Description 1''])))
      = columnCount (model MainWindow_init)"
    by (simp add: columnCount_init list_of_def)
  have h4: "int (length (list_of (model MainWindow_init) (OwnList [''A'', ''B''])))
      = columnCount (model MainWindow_init)"
    by (simp add: columnCount_init list_of_def)
  have h5: "int (length (data_array (model MainWindow_init) ! nat 0))
       = columnCount (model MainWindow_init)"
    by (simp add: columnCount_init data_array_init)
  have l: "list_of (model MainWindow_init) (OwnList [''A'', ''B'']) = [''A'', ''B'']"
    by (simp add: list_of_def)
  have u: "[0..<length [''A'', ''B'']] = [0, 1]" by (simp add: upt_rec)
  from C5_one_notification_per_cell [OF h1 h2 h3 h4 h5, THEN conjunct1]
  show ?thesis unfolding l u by (simp add: model_MainWindow_init default_data_def)
qed

text \<open>
  Claim C5 as stated has one notification for the whole row, after all columns are
  written. On the default table, \<open>redo()\<close> of an edit of row 0 to \<open>A, B\<close> emits two
  notifications, each for one cell, the first while column 1 still holds
  \<open>Description 1\<close>.
\<close>

theorem C5_single_notification_counterexample:
  "EditRowCommand_redo 0 (OwnList [''Item 1'', ''Description 1'']) (OwnList [''A'', ''B''])
     MainWindow_init
     = Inr (MainWindow_init\<lparr>model :=
         \<lparr>data_array = [[''A'', ''B''], [''Item 2'', ''Description 2'']],
          dataChanged =
            [Notification (QModelIndex 0 0) (QModelIndex 0 0) [EditRole]
               [[''A'', ''Description 1''], [''Item 2'', ''Description 2'']],
             Notification (QModelIndex 0 1) (QModelIndex 0 1) [EditRole]
               [[''A'', ''B''], [''Item 2'', ''Description 2'']]]\<rparr>\<rparr>)"
  by code_simp

section \<open>Selection: what \<open>apply_selection\<close> selects\<close>

lemma select_rows_model_index:
  "selectedIndexes (select_rows m s (model_index m r 0)) =
     selectedIndexes s |\<union>| (if hasIndex m r 0 then row_cells m r else {||})"
  by (simp add: select_rows_def model_index_def invalid_index_def hasIndex_def)

lemma calls_select_rows:
  "calls (select_rows m s i) = calls s @ [Select i]"
  by (simp add: select_rows_def)

lemma foldl_select_indexes:
  "selectedIndexes (foldl (\<lambda>s r. select_rows m s (model_index m r 0)) s xs) =
     selectedIndexes s |\<union>|
       ffUnion ((\<lambda>r. if hasIndex m r 0 then row_cells m r else {||}) |`| fset_of_list xs)"
  by (induction xs arbitrary: s) (auto simp: select_rows_model_index)

lemma foldl_select_calls:
  "calls (foldl (\<lambda>s r. select_rows m s (model_index m r 0)) s xs) =
     calls s @ map (\<lambda>r. Select (model_index m r 0)) xs"
  by (induction xs arbitrary: s) (auto simp: calls_select_rows)

lemma apply_selection_indexes:
  "selectedIndexes (apply_selection st m sm) =
     ffUnion ((\<lambda>r. if hasIndex m r 0 then row_cells m r else {||}) |`| selected_rows st)"
  by (simp add: apply_selection_def foldl_select_indexes clearSelection_def)

lemma apply_selection_calls:
  "calls (apply_selection st m sm) =
     calls sm @ ClearSelection # map (\<lambda>r. Select (model_index m r 0))
                                   (sorted_list_of_fset (selected_rows st))"
  by (simp add: apply_selection_def foldl_select_calls clearSelection_def)

lemma fset_row_cells:
  "fset (row_cells m r) = (\<lambda>c. QModelIndex r (int c)) ` {0..<nat (columnCount m)}"
  by (simp add: row_cells_def fset_of_list.rep_eq del: fset_of_list_map)

lemma row_cells_iff:
  "i |\<in>| row_cells m r \<longleftrightarrow> row i = r \<and> 0 \<le> column i \<and> column i < columnCount m"
proof (cases i)
  case (QModelIndex a b)
  show ?thesis
  proof
    assume "i |\<in>| row_cells m r"
    then show "row i = r \<and> 0 \<le> column i \<and> column i < columnCount m"
      by (auto simp: fset_row_cells QModelIndex)
  next
    assume h: "row i = r \<and> 0 \<le> column i \<and> column i < columnCount m"
    then have "nat b < nat (columnCount m)" "int (nat b) = b"
      by (auto simp: QModelIndex)
    then have "QModelIndex r b \<in> (\<lambda>c. QModelIndex r (int c)) ` {0..<nat (columnCount m)}"
      by (metis atLeastLessThan_iff image_eqI le0)
    with h show "i |\<in>| row_cells m r"
      by (simp add: fset_row_cells QModelIndex)
  qed
qed

lemma apply_selection_member:
  "i |\<in>| selectedIndexes (apply_selection st m sm) \<longleftrightarrow>
     row i |\<in>| selected_rows st \<and> hasIndex m (row i) (column i)"
proof
  assume "i |\<in>| selectedIndexes (apply_selection st m sm)"
  then obtain r where r: "r |\<in>| selected_rows st"
    and i: "i |\<in>| (if hasIndex m r 0 then row_cells m r else {||})"
    by (auto simp: apply_selection_indexes ffUnion.rep_eq)
  then have "hasIndex m r 0" "i |\<in>| row_cells m r"
    by (auto split: if_splits)
  with r show "row i |\<in>| selected_rows st \<and> hasIndex m (row i) (column i)"
    by (auto simp: row_cells_iff hasIndex_def)
next
  assume h: "row i |\<in>| selected_rows st \<and> hasIndex m (row i) (column i)"
  then have "hasIndex m (row i) 0" "i |\<in>| row_cells m (row i)"
    by (auto simp: row_cells_iff hasIndex_def)
  then have "i |\<in>| (if hasIndex m (row i) 0 then row_cells m (row i) else {||})"
    by simp
  with h show "i |\<in>| selectedIndexes (apply_selection st m sm)"
    unfolding apply_selection_indexes ffUnion.rep_eq fimage.rep_eq by blast
qed


lemma captured_apply_selection:
  "selected_rows (SelectionState_init (Some (apply_selection st m sm))) =
     ffilter (\<lambda>r. hasIndex m r 0) (selected_rows st)"
proof (rule fset_eqI)
  fix r
  show "r |\<in>| selected_rows (SelectionState_init (Some (apply_selection st m sm))) \<longleftrightarrow>
        r |\<in>| ffilter (\<lambda>r. hasIndex m r 0) (selected_rows st)"
  proof
    assume "r |\<in>| selected_rows (SelectionState_init (Some (apply_selection st m sm)))"
    then obtain i where "i |\<in>| selectedIndexes (apply_selection st m sm)" "row i = r"
      by (auto simp: SelectionState_init_def capture_selection_def)
    then show "r |\<in>| ffilter (\<lambda>r. hasIndex m r 0) (selected_rows st)"
      by (auto simp: apply_selection_member hasIndex_def)
  next
    assume "r |\<in>| ffilter (\<lambda>r. hasIndex m r 0) (selected_rows st)"
    then have a: "r |\<in>| selected_rows st" and b: "hasIndex m r 0" by auto
    then have "QModelIndex r 0 |\<in>| selectedIndexes (apply_selection st m sm)"
      by (simp add: apply_selection_member)
    moreover have "isValid (QModelIndex r 0)" using b by (simp add: isValid_def hasIndex_def)
    ultimately have "row (QModelIndex r 0) |\<in>| row |`| ffilter isValid (selectedIndexes (apply_selection st m sm))"
      by (intro fimageI) simp
    then show "r |\<in>| selected_rows (SelectionState_init (Some (apply_selection st m sm)))"
      by (simp add: SelectionState_init_def capture_selection_def)
  qed
qed

text \<open>
  Claim C7, as amended. For a \<open>SelectionState\<close> whose rows are rows of the table (with
  a column 0) and any prior selection, \<open>apply_selection\<close> makes these calls on the
  selection model: \<open>clearSelection()\<close> first, then one \<open>select\<close> per stored row, on
  the index of its column 0, in strictly ascending order of the rows; and the rows selected
  afterwards are exactly the stored rows.
\<close>

theorem C7_apply_selection_selects_stored_rows:
  assumes "\<forall>r \<in> fset (selected_rows st). hasIndex m r 0"
  shows "calls (apply_selection st m sm) =
           calls sm @ ClearSelection #
             map (\<lambda>r. Select (QModelIndex r 0)) (sorted_list_of_fset (selected_rows st))
       \<and> sorted_wrt (<) (sorted_list_of_fset (selected_rows st))
       \<and> fset_of_list (sorted_list_of_fset (selected_rows st)) = selected_rows st
       \<and> selected_rows (SelectionState_init (Some (apply_selection st m sm)))
           = selected_rows st"
proof -
  have "map (\<lambda>r. Select (model_index m r 0)) (sorted_list_of_fset (selected_rows st))
      = map (\<lambda>r. Select (QModelIndex r 0)) (sorted_list_of_fset (selected_rows st))"
    using assms by (intro map_cong) (auto simp: model_index_def)
  then have a: "calls (apply_selection st m sm) =
           calls sm @ ClearSelection #
             map (\<lambda>r. Select (QModelIndex r 0)) (sorted_list_of_fset (selected_rows st))"
    by (simp add: apply_selection_calls)
  have b: "sorted_wrt (<) (sorted_list_of_fset (selected_rows st))"
    by (simp add: sorted_list_of_fset.rep_eq)
  have "ffilter (\<lambda>r. hasIndex m r 0) (selected_rows st) = selected_rows st"
    using assms by auto
  then have c: "selected_rows (SelectionState_init (Some (apply_selection st m sm)))
           = selected_rows st"
    by (simp add: captured_apply_selection)
  from a b c show ?thesis by simp
qed

lemma hasIndex_init:
  "hasIndex (model MainWindow_init) r c \<longleftrightarrow> 0 \<le> r \<and> 0 \<le> c \<and> r < 2 \<and> c < 2"
  by (simp add: hasIndex_def MainWindow_init_def MyTableModel_init_def Let_def rowCount_def
        columnCount_def default_data_def)

theorem C7_apply_selection_selects_stored_rows_witness:
  "calls (apply_selection \<lparr>selected_rows = {|1, 0|}, selected_indexes = {||}\<rparr>
            (model MainWindow_init)
            \<lparr>selectedIndexes = {|QModelIndex 1 1|}, calls = []\<rparr>)
     = [ClearSelection, Select (QModelIndex 0 0), Select (QModelIndex 1 0)]
   \<and> selected_rows (SelectionState_init (Some
         (apply_selection \<lparr>selected_rows = {|1, 0|}, selected_indexes = {||}\<rparr>
            (model MainWindow_init)
            \<lparr>selectedIndexes = {|QModelIndex 1 1|}, calls = []\<rparr>)))
     = {|1, 0|}"
proof -
  have s: "sorted_list_of_fset {|1, 0::int|} = [0, 1]"
    by code_simp
  have h: "\<forall>r \<in> fset (selected_rows \<lparr>selected_rows = {|1, 0::int|}, selected_indexes = {||}\<rparr>).
             hasIndex (model MainWindow_init) r 0"
    by (simp add: hasIndex_init)
  from C7_apply_selection_selects_stored_rows [OF h,
         of "\<lparr>selectedIndexes = {|QModelIndex 1 1|}, calls = []\<rparr>"]
  show ?thesis by (simp add: s)
qed

text \<open>
  Claim C7 as stated is for every \<open>SelectionState\<close>. On the default table of two rows,
  a state that stores row 5 is applied without an error: \<open>model().index(5, 0)\<close> is the
  invalid index, selecting it selects nothing, and the rows selected afterwards are none,
  not the stored set.
\<close>

theorem C7_row_outside_table_counterexample:
  "calls (apply_selection \<lparr>selected_rows = {|5|}, selected_indexes = {||}\<rparr>
            (model MainWindow_init) \<lparr>selectedIndexes = {||}, calls = []\<rparr>)
     = [ClearSelection, Select (QModelIndex (- 1) (- 1))]
   \<and> selected_rows (SelectionState_init (Some
         (apply_selection \<lparr>selected_rows = {|5|}, selected_indexes = {||}\<rparr>
            (model MainWindow_init) \<lparr>selectedIndexes = {||}, calls = []\<rparr>)))
     = {||}
   \<and> {||} \<noteq> {|5::int|}"
proof -
  have h: "\<not> hasIndex (model MainWindow_init) 5 0"
    by (simp add: hasIndex_init)
  have s: "sorted_list_of_fset {|5::int|} = [5]"
    by code_simp
  have a: "calls (apply_selection \<lparr>selected_rows = {|5|}, selected_indexes = {||}\<rparr>
            (model MainWindow_init) \<lparr>selectedIndexes = {||}, calls = []\<rparr>)
     = [ClearSelection, Select (QModelIndex (- 1) (- 1))]"
    using h by (simp add: apply_selection_calls s model_index_def invalid_index_def)
  have b: "selected_rows (SelectionState_init (Some
         (apply_selection \<lparr>selected_rows = {|5|}, selected_indexes = {||}\<rparr>
            (model MainWindow_init) \<lparr>selectedIndexes = {||}, calls = []\<rparr>)))
     = {||}"
    using h by (auto simp: captured_apply_selection)
  have c: "{||} \<noteq> {|5::int|}"
    by auto
  from a b c show ?thesis by blast
qed

section \<open>The undo stack\<close>

text \<open>
  Claim C8. With the cursor at 0, \<open>undo()\<close> reports \<open>NothingToUndo\<close> and returns the
  window as it was: table, selection and history are unchanged.
\<close>

theorem C8_undo_on_empty_history:
  "cursor (undo_stack w) = 0 \<Longrightarrow> undo w = Inr (NothingToUndo, w)"
  by (simp add: undo_def)

theorem C8_undo_on_empty_history_witness:
  "cursor (undo_stack MainWindow_init) = 0
   \<and> undo MainWindow_init = Inr (NothingToUndo, MainWindow_init)"
proof -
  have h: "cursor (undo_stack MainWindow_init) = 0"
    by (simp add: MainWindow_init_def Let_def)
  from h C8_undo_on_empty_history [OF h] show ?thesis by simp
qed

lemma command_redo_frame:
  "command_redo c w = Inr w' \<Longrightarrow>
     undo_stack w' = undo_stack w \<and> previous_selection w' = previous_selection w"
  by (cases c)
     (auto simp: SelectionUndoCommand_redo_def EditRowCommand_redo_def split: sum.splits)

lemma command_undo_frame:
  "command_undo c w = Inr w' \<Longrightarrow>
     undo_stack w' = undo_stack w \<and> previous_selection w' = previous_selection w"
  by (cases c)
     (auto simp: SelectionUndoCommand_undo_def EditRowCommand_undo_def split: sum.splits)

lemma push_result:
  assumes "push cmd w = Inr w'"
  shows "\<exists>w1. command_redo cmd w = Inr w1
           \<and> w' = w1\<lparr>undo_stack :=
                 \<lparr>commands = take (cursor (undo_stack w)) (commands (undo_stack w)) @ [cmd],
                  cursor = Suc (length (take (cursor (undo_stack w)) (commands (undo_stack w))))\<rparr>\<rparr>"
proof (cases "command_redo cmd w")
  case (Inl e)
  with assms show ?thesis by (simp add: push_def Let_def)
next
  case (Inr w1)
  with assms show ?thesis by (auto simp: push_def Let_def)
qed

lemma push_cursor_end:
  "push cmd w = Inr w' \<Longrightarrow> cursor (undo_stack w') = length (commands (undo_stack w'))"
  using push_result [of cmd w w'] by auto

lemma pushes_cursor_end:
  "pushes cs w = Inr w' \<Longrightarrow> cursor (undo_stack w) = length (commands (undo_stack w))
     \<Longrightarrow> cursor (undo_stack w') = length (commands (undo_stack w'))"
proof (induction cs arbitrary: w)
  case Nil
  then show ?case by simp
next
  case (Cons c cs)
  then obtain w1 where p: "push c w = Inr w1" and q: "pushes cs w1 = Inr w'"
    by (auto split: sum.splits)
  from push_cursor_end [OF p] Cons.IH [OF q] show ?case by simp
qed

lemma redo_at_end:
  "cursor (undo_stack w) = length (commands (undo_stack w)) \<Longrightarrow> redo w = Inr (NothingToRedo, w)"
  by (simp add: redo_def)

text \<open>
  Claim C3. Whatever the cursor is (so also when it is below the number of stored
  commands), if the command's own \<open>redo()\<close> returns then \<open>push(cmd)\<close> returns,
  having dropped the commands at and after the cursor, appended \<open>cmd\<close>, applied it to
  the table and the selection, and set the cursor to the new length. \<open>redo()\<close> then
  reports \<open>NothingToRedo\<close> and changes nothing, also after any further pushes; after an
  \<open>undo()\<close> that undid a command it no longer does.
\<close>

theorem C3_push_discards_redo_tail:
  assumes "command_redo cmd w = Inr w1"
  shows "\<exists>w'. push cmd w = Inr w'
       \<and> commands (undo_stack w')
           = take (cursor (undo_stack w)) (commands (undo_stack w)) @ [cmd]
       \<and> cursor (undo_stack w') = length (commands (undo_stack w'))
       \<and> model w' = model w1 \<and> selection_model w' = selection_model w1
       \<and> redo w' = Inr (NothingToRedo, w')
       \<and> (\<forall>cs w''. pushes cs w' = Inr w'' \<longrightarrow> redo w'' = Inr (NothingToRedo, w''))
       \<and> (\<forall>w2. undo w' = Inr (Done, w2) \<longrightarrow> (\<forall>x. redo w2 \<noteq> Inr (NothingToRedo, x)))"
proof -
  define w' where "w' = w1\<lparr>undo_stack :=
      \<lparr>commands = take (cursor (undo_stack w)) (commands (undo_stack w)) @ [cmd],
       cursor = length (take (cursor (undo_stack w)) (commands (undo_stack w)) @ [cmd])\<rparr>\<rparr>"
  have p: "push cmd w = Inr w'"
    using assms by (simp add: push_def Let_def w'_def)
  have a: "commands (undo_stack w')
           = take (cursor (undo_stack w)) (commands (undo_stack w)) @ [cmd]"
    by (simp add: w'_def)
  have b: "cursor (undo_stack w') = length (commands (undo_stack w'))"
    by (simp add: w'_def)
  have c: "model w' = model w1 \<and> selection_model w' = selection_model w1"
    by (simp add: w'_def)
  have d: "redo w' = Inr (NothingToRedo, w')"
    using b by (rule redo_at_end)
  have e: "\<forall>cs w''. pushes cs w' = Inr w'' \<longrightarrow> redo w'' = Inr (NothingToRedo, w'')"
    using b by (blast intro: redo_at_end pushes_cursor_end)
  have f: "\<forall>w2. undo w' = Inr (Done, w2) \<longrightarrow> (\<forall>x. redo w2 \<noteq> Inr (NothingToRedo, x))"
  proof (intro allI impI)
    fix w2 x
    assume u: "undo w' = Inr (Done, w2)"
    have pos: "0 < cursor (undo_stack w')" using b a by simp
    from u pos obtain w3 where
      "w2 = w3\<lparr>undo_stack := (undo_stack w')\<lparr>cursor := cursor (undo_stack w') - 1\<rparr>\<rparr>"
      by (auto simp: undo_def Let_def split: if_splits sum.splits)
    then have "cursor (undo_stack w2) < length (commands (undo_stack w2))"
      using b pos by simp
    then show "redo w2 \<noteq> Inr (NothingToRedo, x)"
      by (auto simp: redo_def Let_def split: sum.splits)
  qed
  from p a b c d e f show ?thesis by blast
qed

lemma redo_edit_init:
  "command_redo (EditRowCommand 0 (OwnList [''Item 1'', ''Description 1'']) (OwnList [''Item 1'', ''Updated'']))
     (MainWindow_init\<lparr>undo_stack :=
        \<lparr>commands = [EditRowCommand 1 (OwnList [''Item 2'', ''Description 2'']) (OwnList [''A'', ''B'']),
                     EditRowCommand 1 (OwnList [''A'', ''B'']) (OwnList [''C'', ''D''])],
         cursor = 1\<rparr>\<rparr>)
   = Inr (MainWindow_init\<lparr>undo_stack :=
        \<lparr>commands = [EditRowCommand 1 (OwnList [''Item 2'', ''Description 2'']) (OwnList [''A'', ''B'']),
                     EditRowCommand 1 (OwnList [''A'', ''B'']) (OwnList [''C'', ''D''])],
         cursor = 1\<rparr>,
       model :=
         \<lparr>data_array = [[''Item 1'', ''Updated''], [''Item 2'', ''Description 2'']],
          dataChanged =
            [Notification (QModelIndex 0 0) (QModelIndex 0 0) [EditRole]
               [[''Item 1'', ''Description 1''], [''Item 2'', ''Description 2'']],
             Notification (QModelIndex 0 1) (QModelIndex 0 1) [EditRole]
               [[''Item 1'', ''Updated''], [''Item 2'', ''Description 2'']]]\<rparr>\<rparr>)"
  by code_simp

theorem C3_push_discards_redo_tail_witness:
  "\<exists>w'. push (EditRowCommand 0 (OwnList [''Item 1'', ''Description 1'']) (OwnList [''Item 1'', ''Updated'']))
           (MainWindow_init\<lparr>undo_stack :=
              \<lparr>commands = [EditRowCommand 1 (OwnList [''Item 2'', ''Description 2'']) (OwnList [''A'', ''B'']),
                           EditRowCommand 1 (OwnList [''A'', ''B'']) (OwnList [''C'', ''D''])],
               cursor = 1\<rparr>\<rparr>) = Inr w'
      \<and> commands (undo_stack w')
          = [EditRowCommand 1 (OwnList [''Item 2'', ''Description 2'']) (OwnList [''A'', ''B'']),
             EditRowCommand 0 (OwnList [''Item 1'', ''Description 1'']) (OwnList [''Item 1'', ''Updated''])]
      \<and> cursor (undo_stack w') = 2
      \<and> data_array (model w') = [[''Item 1'', ''Updated''], [''Item 2'', ''Description 2'']]
      \<and> redo w' = Inr (NothingToRedo, w')"
proof -
  from C3_push_discards_redo_tail [OF redo_edit_init]
  obtain w' where
    p: "push (EditRowCommand 0 (OwnList [''Item 1'', ''Description 1'']) (OwnList [''Item 1'', ''Updated'']))
           (MainWindow_init\<lparr>undo_stack :=
              \<lparr>commands = [EditRowCommand 1 (OwnList [''Item 2'', ''Description 2'']) (OwnList [''A'', ''B'']),
                           EditRowCommand 1 (OwnList [''A'', ''B'']) (OwnList [''C'', ''D''])],
               cursor = 1\<rparr>\<rparr>) = Inr w'"
    and c: "commands (undo_stack w')
          = take 1 [EditRowCommand 1 (OwnList [''Item 2'', ''Description 2'']) (OwnList [''A'', ''B'']),
                    EditRowCommand 1 (OwnList [''A'', ''B'']) (OwnList [''C'', ''D''])]
            @ [EditRowCommand 0 (OwnList [''Item 1'', ''Description 1'']) (OwnList [''Item 1'', ''Updated''])]"
    and k: "cursor (undo_stack w') = length (commands (undo_stack w'))"
    and m: "model w' =
         \<lparr>data_array = [[''Item 1'', ''Updated''], [''Item 2'', ''Description 2'']],
          dataChanged =
            [Notification (QModelIndex 0 0) (QModelIndex 0 0) [EditRole]
               [[''Item 1'', ''Description 1''], [''Item 2'', ''Description 2'']],
             Notification (QModelIndex 0 1) (QModelIndex 0 1) [EditRole]
               [[''Item 1'', ''Updated''], [''Item 2'', ''Description 2'']]]\<rparr>"
    and r: "redo w' = Inr (NothingToRedo, w')"
    by auto
  from c have c': "commands (undo_stack w')
          = [EditRowCommand 1 (OwnList [''Item 2'', ''Description 2'']) (OwnList [''A'', ''B'']),
             EditRowCommand 0 (OwnList [''Item 1'', ''Description 1'']) (OwnList [''Item 1'', ''Updated''])]"
    by simp
  from k c' have k': "cursor (undo_stack w') = 2" by simp
  from m have m': "data_array (model w')
          = [[''Item 1'', ''Updated''], [''Item 2'', ''Description 2'']]"
    by simp
  from p c' k' m' r show ?thesis by blast
qed

text \<open>
  Claim C6. One call of \<open>handle_selection_change\<close> returns; it changes the undo stack
  if and only if the rows captured from the selection model differ from those of
  \<open>previous_selection\<close>. When they differ the stack ends with the new
  \<open>SelectionUndoCommand\<close> from the previous to the captured state; when they are equal
  only \<open>previous_selection\<close> is replaced.
\<close>

theorem C6_selection_command_pushed_iff_changed:
  "\<exists>w'. handle_selection_change w = Inr w'
      \<and> previous_selection w' = SelectionState_init (Some (selection_model w))
      \<and> (undo_stack w' \<noteq> undo_stack w
           \<longleftrightarrow> live_rows w \<noteq> selected_rows (previous_selection w))
      \<and> (if live_rows w \<noteq> selected_rows (previous_selection w)
          then commands (undo_stack w')
                 = take (cursor (undo_stack w)) (commands (undo_stack w))
                   @ [SelectionUndoCommand (previous_selection w)
                        (SelectionState_init (Some (selection_model w)))]
               \<and> cursor (undo_stack w') = length (commands (undo_stack w'))
          else w' = w\<lparr>previous_selection := SelectionState_init (Some (selection_model w))\<rparr>)"
proof (cases "live_rows w = selected_rows (previous_selection w)")
  case True
  then show ?thesis
    by (simp add: handle_selection_change_def live_rows_def Let_def)
next
  case False
  let ?cur = "SelectionState_init (Some (selection_model w))"
  let ?cmd = "SelectionUndoCommand (previous_selection w) ?cur"
  let ?cs = "take (cursor (undo_stack w)) (commands (undo_stack w)) @ [?cmd]"
  let ?wp = "(SelectionUndoCommand_redo (previous_selection w) ?cur w)
               \<lparr>undo_stack := \<lparr>commands = ?cs, cursor = length ?cs\<rparr>\<rparr>"
  have p: "push ?cmd w = Inr ?wp"
    by (simp add: push_def Let_def)
  have h: "handle_selection_change w = Inr (?wp\<lparr>previous_selection := ?cur\<rparr>)"
    using False p by (simp add: handle_selection_change_def live_rows_def Let_def)
  have ne: "undo_stack (?wp\<lparr>previous_selection := ?cur\<rparr>) \<noteq> undo_stack w"
  proof
    assume eq: "undo_stack (?wp\<lparr>previous_selection := ?cur\<rparr>) = undo_stack w"
    then have e1: "\<lparr>commands = ?cs, cursor = length ?cs\<rparr> = undo_stack w"
      by simp
    have "length (commands (undo_stack w)) = length ?cs \<and> cursor (undo_stack w) = length ?cs"
      using arg_cong [OF e1, of commands] arg_cong [OF e1, of cursor] by simp
    then show False
      by (simp add: min_def split: if_splits)
  qed
  show ?thesis
    using False h ne by simp
qed

section \<open>Pushing commands and undoing them all\<close>
















text \<open>
  The pushes of that example do change the window: the row is edited, row 1 is selected
  and the cursor stands at 2.
\<close>

lemma pushes_example:
  "case pushes
       [EditRowCommand 0 (OwnList [''Item 1'', ''Description 1'']) (OwnList [''Item 1'', ''Updated'']),
        SelectionUndoCommand \<lparr>selected_rows = {||}, selected_indexes = {||}\<rparr>
          \<lparr>selected_rows = {|1|}, selected_indexes = {||}\<rparr>]
       MainWindow_init of
     Inl e \<Rightarrow> False
   | Inr w1 \<Rightarrow>
       data_array (model w1) = [[''Item 1'', ''Updated''], [''Item 2'', ''Description 2'']]
       \<and> live_rows w1 = {|1|}
       \<and> cursor (undo_stack w1) = 2"
  by code_simp


end
